theory Spec2Isabelle
  imports Complex_Main "HOL-Library.Sublist"
begin

section \<open>The poker stat tracker (src/PokerStatTracker.js)\<close>

text \<open>
  The class keeps its sessions in a private array \<open>this._games\<close> of session objects.
  Session objects are mutated in place by \<open>updateGame\<close> and are handed out, by
  reference, inside the array returned by \<open>getGames\<close>; so objects and arrays live in
  an explicit store and the tracker holds the address of its array.

  JavaScript numbers are modelled as exact rationals, \<open>undefined\<close> properties of the
  argument of \<open>updateGame\<close> as \<open>None\<close>, and the text produced by
  \<open>Math.random().toString(36)\<close> is a parameter of \<open>addGame\<close>.
\<close>

subsection \<open>Data\<close>

type_synonym ref = nat

text \<open>A session object: \<open>{ id, gameName, buyIn, cashOut, stakes, gainLoss }\<close>.\<close>

record game =
  id' :: string
  gameName :: string
  buyIn :: rat
  cashOut :: rat
  stakes :: string
  gainLoss :: rat

text \<open>The argument \<open>updatedData\<close> of \<open>updateGame\<close>; a property that is
  \<open>undefined\<close> is \<open>None\<close>.\<close>

record updatedData =
  upd_gameName :: "string option"
  upd_buyIn :: "rat option"
  upd_cashOut :: "rat option"
  upd_stakes :: "string option"

text \<open>Values a method hands back to its caller, and the exception of \<open>updateGame\<close>.\<close>

datatype jsval = Undefined | Str string

datatype error = Error string

text \<open>
  The store: session objects and arrays of object addresses, each with the next free
  address, and the field \<open>this._games\<close> of the tracker instance.
\<close>

record state =
  objs :: "ref \<Rightarrow> game"
  arrs :: "ref \<Rightarrow> ref list"
  nobj :: nat
  narr :: nat
  games :: ref

definition new_obj :: "game \<Rightarrow> state \<Rightarrow> ref \<times> state" where
  "new_obj g s = (nobj s, s\<lparr>objs := (objs s)(nobj s := g), nobj := Suc (nobj s)\<rparr>)"

definition new_arr :: "ref list \<Rightarrow> state \<Rightarrow> ref \<times> state" where
  "new_arr xs s = (narr s, s\<lparr>arrs := (arrs s)(narr s := xs), narr := Suc (narr s)\<rparr>)"

text \<open>What the ledger shows: the session objects of \<open>this._games\<close>, in array order.\<close>

definition records :: "state \<Rightarrow> game list" where
  "records s = map (objs s) (arrs s (games s))"

text \<open>
  Well-formed stores: \<open>this._games\<close> is an allocated array, its elements are
  allocated objects, and no object occurs in it twice.
\<close>

definition wf_state :: "state \<Rightarrow> bool" where
  "wf_state s \<longleftrightarrow>
     games s < narr s \<and> list_all (\<lambda>r. r < nobj s) (arrs s (games s)) \<and>
     distinct (arrs s (games s))"

subsection \<open>Private helpers\<close>

definition calculateGainLoss :: "rat \<Rightarrow> rat \<Rightarrow> rat" where
  "calculateGainLoss bi co = co - bi"

text \<open>\<open>'_' + rnd.substr(2, 9)\<close>, where \<open>rnd\<close> is \<open>Math.random().toString(36)\<close>.\<close>

definition generateId :: "string \<Rightarrow> string" where
  "generateId rnd = CHR ''_'' # take 9 (drop 2 rnd)"

text \<open>\<open>Array.prototype.findIndex\<close>: the first index whose element satisfies the
  predicate, \<open>-1\<close> when there is none.\<close>

fun findIndex :: "('a \<Rightarrow> bool) \<Rightarrow> 'a list \<Rightarrow> int" where
  "findIndex p [] = - 1"
| "findIndex p (x # xs) =
     (if p x then 0 else (let i = findIndex p xs in if i = - 1 then - 1 else i + 1))"

subsection \<open>Methods\<close>

definition constructor :: "state \<Rightarrow> state" where
  "constructor s = (case new_arr [] s of (a, s1) \<Rightarrow> s1\<lparr>games := a\<rparr>)"

definition addGame :: "string \<Rightarrow> string \<Rightarrow> rat \<Rightarrow> rat \<Rightarrow> string \<Rightarrow> state \<Rightarrow> jsval \<times> state" where
  "addGame rnd gn bi co st s =
     (case new_obj \<lparr>id' = generateId rnd, gameName = gn, buyIn = bi,
                    cashOut = co, stakes = st,
                    gainLoss = calculateGainLoss bi co\<rparr> s of
        (game, s1) \<Rightarrow>
          (Undefined, s1\<lparr>arrs := (arrs s1)(games s1 := arrs s1 (games s1) @ [game])\<rparr>))"

definition set_gameName :: "ref \<Rightarrow> string \<Rightarrow> state \<Rightarrow> state" where
  "set_gameName r v s = s\<lparr>objs := (objs s)(r := (objs s r)\<lparr>gameName := v\<rparr>)\<rparr>"

definition set_buyIn :: "ref \<Rightarrow> rat \<Rightarrow> state \<Rightarrow> state" where
  "set_buyIn r v s = s\<lparr>objs := (objs s)(r := (objs s r)\<lparr>buyIn := v\<rparr>)\<rparr>"

definition set_cashOut :: "ref \<Rightarrow> rat \<Rightarrow> state \<Rightarrow> state" where
  "set_cashOut r v s = s\<lparr>objs := (objs s)(r := (objs s r)\<lparr>cashOut := v\<rparr>)\<rparr>"

definition set_stakes :: "ref \<Rightarrow> string \<Rightarrow> state \<Rightarrow> state" where
  "set_stakes r v s = s\<lparr>objs := (objs s)(r := (objs s r)\<lparr>stakes := v\<rparr>)\<rparr>"

definition set_gainLoss :: "ref \<Rightarrow> rat \<Rightarrow> state \<Rightarrow> state" where
  "set_gainLoss r v s = s\<lparr>objs := (objs s)(r := (objs s r)\<lparr>gainLoss := v\<rparr>)\<rparr>"

definition updateGame :: "string \<Rightarrow> updatedData \<Rightarrow> state \<Rightarrow> (error + jsval) \<times> state" where
  "updateGame i updatedData s =
     (let index = findIndex (\<lambda>r. id' (objs s r) = i) (arrs s (games s)) in
      if index = - 1 then (Inl (Error ''Game session not found''), s)
      else
        let game = arrs s (games s) ! nat index;
            s1 = (case upd_gameName updatedData of
                    Some v \<Rightarrow> set_gameName game v s | None \<Rightarrow> s);
            s2 = (case upd_buyIn updatedData of
                    Some v \<Rightarrow> set_buyIn game v s1 | None \<Rightarrow> s1);
            s3 = (case upd_cashOut updatedData of
                    Some v \<Rightarrow> set_cashOut game v s2 | None \<Rightarrow> s2);
            s4 = (case upd_stakes updatedData of
                    Some v \<Rightarrow> set_stakes game v s3 | None \<Rightarrow> s3);
            s5 = (if upd_buyIn updatedData \<noteq> None \<or> upd_cashOut updatedData \<noteq> None
                  then set_gainLoss game
                         (calculateGainLoss (buyIn (objs s4 game)) (cashOut (objs s4 game))) s4
                  else s4)
        in (Inr Undefined, s5))"

text \<open>The fields that the assignments of \<open>updateGame\<close> leave in a session object
  that held the fields \<open>g\<close>.\<close>

definition assigned :: "updatedData \<Rightarrow> game \<Rightarrow> game" where
  "assigned updatedData g =
     (let g1 = (case upd_gameName updatedData of
                  Some v \<Rightarrow> g\<lparr>gameName := v\<rparr> | None \<Rightarrow> g);
          g2 = (case upd_buyIn updatedData of
                  Some v \<Rightarrow> g1\<lparr>buyIn := v\<rparr> | None \<Rightarrow> g1);
          g3 = (case upd_cashOut updatedData of
                  Some v \<Rightarrow> g2\<lparr>cashOut := v\<rparr> | None \<Rightarrow> g2);
          g4 = (case upd_stakes updatedData of
                  Some v \<Rightarrow> g3\<lparr>stakes := v\<rparr> | None \<Rightarrow> g3)
      in if upd_buyIn updatedData \<noteq> None \<or> upd_cashOut updatedData \<noteq> None
         then g4\<lparr>gainLoss := calculateGainLoss (buyIn g4) (cashOut g4)\<rparr>
         else g4)"

definition deleteGame :: "string \<Rightarrow> state \<Rightarrow> jsval \<times> state" where
  "deleteGame i s =
     (case new_arr (filter (\<lambda>r. id' (objs s r) \<noteq> i) (arrs s (games s))) s of
        (a, s1) \<Rightarrow> (Undefined, s1\<lparr>games := a\<rparr>))"

definition clearGames :: "state \<Rightarrow> jsval \<times> state" where
  "clearGames s = (case new_arr [] s of (a, s1) \<Rightarrow> (Undefined, s1\<lparr>games := a\<rparr>))"

text \<open>\<open>[...this._games]\<close>: a new array with the same elements.\<close>

definition getGames :: "state \<Rightarrow> ref \<times> state" where
  "getGames s = new_arr (arrs s (games s)) s"

definition getTotalGainLoss :: "state \<Rightarrow> rat" where
  "getTotalGainLoss s =
     foldl (\<lambda>total game. total + gainLoss (objs s game)) 0 (arrs s (games s))"

definition getTotalGamesPlayed :: "state \<Rightarrow> nat" where
  "getTotalGamesPlayed s = length (arrs s (games s))"

definition getTotalBuyIn :: "state \<Rightarrow> rat" where
  "getTotalBuyIn s =
     foldl (\<lambda>total game. total + buyIn (objs s game)) 0 (arrs s (games s))"

definition getTotalCashOut :: "state \<Rightarrow> rat" where
  "getTotalCashOut s =
     foldl (\<lambda>total game. total + cashOut (objs s game)) 0 (arrs s (games s))"

subsection \<open>What a caller can do with a returned array\<close>

text \<open>
  A caller that holds the address of an array or of a session object can assign to it:
  \<open>write_arr a xs\<close> leaves the array at \<open>a\<close> with the elements \<open>xs\<close> (after
  \<open>push\<close>, \<open>pop\<close>, \<open>splice\<close> or an index assignment), \<open>write_obj r g\<close> leaves
  the object at \<open>r\<close> with the fields of \<open>g\<close>.
\<close>

definition write_arr :: "ref \<Rightarrow> ref list \<Rightarrow> state \<Rightarrow> state" where
  "write_arr a xs s = s\<lparr>arrs := (arrs s)(a := xs)\<rparr>"

definition write_obj :: "ref \<Rightarrow> game \<Rightarrow> state \<Rightarrow> state" where
  "write_obj r g s = s\<lparr>objs := (objs s)(r := g)\<rparr>"

subsection \<open>Sequences of method calls on a new tracker\<close>

datatype call =
  AddGame string string rat rat string
| UpdateGame string updatedData
| DeleteGame string
| ClearGames
| GetGames

fun exec :: "call \<Rightarrow> state \<Rightarrow> state" where
  "exec (AddGame rnd gn bi co st) s = snd (addGame rnd gn bi co st s)"
| "exec (UpdateGame i u) s = snd (updateGame i u s)"
| "exec (DeleteGame i) s = snd (deleteGame i s)"
| "exec ClearGames s = snd (clearGames s)"
| "exec GetGames s = snd (getGames s)"

text \<open>\<open>run cs s0\<close>: \<open>new PokerStatTracker()\<close> in the store \<open>s0\<close>, then the calls
  \<open>cs\<close> from left to right (an exception of \<open>updateGame\<close> is caught by the caller).\<close>

definition run :: "call list \<Rightarrow> state \<Rightarrow> state" where
  "run cs s0 = foldl (\<lambda>s c. exec c s) (constructor s0) cs"

text \<open>A store in which nothing has been allocated yet.\<close>

definition blank :: game where
  "blank = \<lparr>id' = [], gameName = [], buyIn = 0, cashOut = 0, stakes = [], gainLoss = 0\<rparr>"

definition empty_store :: state where
  "empty_store = \<lparr>objs = (\<lambda>_. blank), arrs = (\<lambda>_. []), nobj = 0, narr = 0, games = 0\<rparr>"

section \<open>Properties\<close>

subsection \<open>Lists, \<open>reduce\<close> and \<open>findIndex\<close>\<close>

lemma foldl_add_sum_list:
  "foldl (\<lambda>total x. total + f x) a xs = a + sum_list (map f xs)"
  for a :: rat
  by (induction xs arbitrary: a) (simp_all add: add.assoc)

lemma map_fun_upd_nth:
  "distinct xs \<Longrightarrow> k < length xs \<Longrightarrow> map (f(xs ! k := v)) xs = (map f xs)[k := v]"
  by (rule nth_equalityI) (auto simp: nth_list_update nth_eq_iff_index_eq)

lemma map_fun_upd_fresh: "r \<notin> set xs \<Longrightarrow> map (f(r := v)) xs = map f xs"
  by (induction xs) auto

lemma findIndex_lower: "- 1 \<le> findIndex p xs"
  by (induction xs) (simp_all add: Let_def)

lemma findIndex_none: "findIndex p xs = - 1 \<longleftrightarrow> (\<forall>x\<in>set xs. \<not> p x)"
proof (induction xs)
  case Nil
  show ?case by simp
next
  case (Cons x xs)
  have "- 1 \<le> findIndex p xs" by (rule findIndex_lower)
  then have "findIndex p xs + 1 \<noteq> - 1" by arith
  with Cons show ?case by (simp add: Let_def)
qed

lemma findIndex_found:
  assumes "findIndex p xs \<noteq> - 1"
  shows "0 \<le> findIndex p xs \<and> nat (findIndex p xs) < length xs \<and>
         p (xs ! nat (findIndex p xs)) \<and> (\<forall>j<nat (findIndex p xs). \<not> p (xs ! j))"
  using assms
proof (induction xs)
  case Nil
  then show ?case by simp
next
  case (Cons x xs)
  show ?case
  proof (cases "p x")
    case True
    then show ?thesis by simp
  next
    case False
    with Cons.prems have ne: "findIndex p xs \<noteq> - 1"
      by (simp add: Let_def split: if_splits)
    from Cons.IH [OF ne] have ih: "0 \<le> findIndex p xs" "nat (findIndex p xs) < length xs"
      "p (xs ! nat (findIndex p xs))" "\<forall>j<nat (findIndex p xs). \<not> p (xs ! j)"
      by simp_all
    have eq: "findIndex p (x # xs) = findIndex p xs + 1"
      using False ne by (simp add: Let_def)
    have n: "nat (findIndex p xs + 1) = Suc (nat (findIndex p xs))"
      using ih(1) by simp
    show ?thesis unfolding eq n using ih False
      by (auto simp: nth_Cons split: nat.splits)
  qed
qed

lemma findIndex_first:
  assumes k: "k < length xs" and pk: "p (xs ! k)" and before: "\<forall>j<k. \<not> p (xs ! j)"
  shows "findIndex p xs = int k"
proof -
  from k pk have "\<not> (\<forall>x\<in>set xs. \<not> p x)" using nth_mem by blast
  then have ne: "findIndex p xs \<noteq> - 1" by (simp add: findIndex_none)
  let ?m = "nat (findIndex p xs)"
  from findIndex_found [OF ne] have m: "0 \<le> findIndex p xs" "p (xs ! ?m)"
    "\<forall>j<?m. \<not> p (xs ! j)" by simp_all
  have "\<not> ?m < k" using before m(2) by blast
  moreover have "\<not> k < ?m" using m(3) pk by blast
  ultimately have "?m = k" by arith
  with m(1) show ?thesis by simp
qed

lemma findIndex_map: "findIndex p (map f xs) = findIndex (\<lambda>x. p (f x)) xs"
  by (induction xs) simp_all

subsection \<open>The methods, seen through \<open>records\<close>\<close>

lemma wf_state_fresh: "wf_state s \<Longrightarrow> nobj s \<notin> set (arrs s (games s))"
  by (auto simp: wf_state_def list_all_iff)

lemma records_constructor: "records (constructor s) = []"
  by (simp add: constructor_def new_arr_def records_def)

lemma wf_state_constructor: "wf_state (constructor s)"
  by (simp add: constructor_def new_arr_def wf_state_def)

lemma records_addGame:
  assumes "wf_state s"
  shows "records (snd (addGame rnd gn bi co st s)) =
         records s @ [\<lparr>id' = generateId rnd, gameName = gn, buyIn = bi, cashOut = co,
                       stakes = st, gainLoss = co - bi\<rparr>]"
  using wf_state_fresh [OF assms]
  by (simp add: addGame_def new_obj_def records_def calculateGainLoss_def map_fun_upd_fresh)

lemma wf_state_addGame:
  assumes "wf_state s"
  shows "wf_state (snd (addGame rnd gn bi co st s))"
  using assms wf_state_fresh [OF assms]
  by (auto simp: addGame_def new_obj_def wf_state_def list_all_iff)

lemma records_deleteGame:
  "records (snd (deleteGame i s)) = filter (\<lambda>g. id' g \<noteq> i) (records s)"
  by (simp add: deleteGame_def new_arr_def records_def filter_map comp_def)

lemma wf_state_deleteGame: "wf_state s \<Longrightarrow> wf_state (snd (deleteGame i s))"
  by (auto simp: deleteGame_def new_arr_def wf_state_def list_all_iff)

lemma records_clearGames: "records (snd (clearGames s)) = []"
  by (simp add: clearGames_def new_arr_def records_def)

lemma wf_state_clearGames: "wf_state (snd (clearGames s))"
  by (simp add: clearGames_def new_arr_def wf_state_def)

lemma records_getGames: "wf_state s \<Longrightarrow> records (snd (getGames s)) = records s"
  by (auto simp: getGames_def new_arr_def records_def wf_state_def)

lemma wf_state_getGames: "wf_state s \<Longrightarrow> wf_state (snd (getGames s))"
  by (auto simp: getGames_def new_arr_def wf_state_def)

lemma updateGame_missing:
  assumes "findIndex (\<lambda>r. id' (objs s r) = i) (arrs s (games s)) = - 1"
  shows "updateGame i u s = (Inl (Error ''Game session not found''), s)"
  using assms by (simp add: updateGame_def)

lemma updateGame_found:
  assumes found: "findIndex (\<lambda>r. id' (objs s r) = i) (arrs s (games s)) = int k"
  shows "updateGame i u s =
         (Inr Undefined,
          write_obj (arrs s (games s) ! k) (assigned u (objs s (arrs s (games s) ! k))) s)"
  unfolding updateGame_def Let_def found assigned_def
  by (cases "upd_gameName u"; cases "upd_buyIn u"; cases "upd_cashOut u";
      cases "upd_stakes u")
    (simp_all add: set_gameName_def set_buyIn_def set_cashOut_def
      set_stakes_def set_gainLoss_def calculateGainLoss_def write_obj_def)

lemma assigned_fields:
  "id' (assigned u g) = id' g"
  "gameName (assigned u g) = (case upd_gameName u of None \<Rightarrow> gameName g | Some v \<Rightarrow> v)"
  "buyIn (assigned u g) = (case upd_buyIn u of None \<Rightarrow> buyIn g | Some v \<Rightarrow> v)"
  "cashOut (assigned u g) = (case upd_cashOut u of None \<Rightarrow> cashOut g | Some v \<Rightarrow> v)"
  "stakes (assigned u g) = (case upd_stakes u of None \<Rightarrow> stakes g | Some v \<Rightarrow> v)"
  "gainLoss (assigned u g) =
     (if upd_buyIn u = None \<and> upd_cashOut u = None then gainLoss g
      else cashOut (assigned u g) - buyIn (assigned u g))"
  by (simp_all add: assigned_def Let_def calculateGainLoss_def split: option.splits)

lemma records_write_obj:
  assumes "distinct (arrs s (games s))" and "k < length (arrs s (games s))"
  shows "records (write_obj (arrs s (games s) ! k) g s) = (records s)[k := g]"
  using assms by (simp add: records_def write_obj_def map_fun_upd_nth)

lemma wf_state_write_obj: "wf_state (write_obj r g s) = wf_state s"
  by (simp add: wf_state_def write_obj_def)

lemma wf_state_updateGame:
  assumes "wf_state s"
  shows "wf_state (snd (updateGame i u s))"
proof (cases "findIndex (\<lambda>r. id' (objs s r) = i) (arrs s (games s)) = - 1")
  case True
  then show ?thesis using assms by (simp add: updateGame_missing)
next
  case False
  from findIndex_found [OF False]
  have "findIndex (\<lambda>r. id' (objs s r) = i) (arrs s (games s)) =
        int (nat (findIndex (\<lambda>r. id' (objs s r) = i) (arrs s (games s))))"
    by simp
  from updateGame_found [OF this] show ?thesis
    using assms by (simp add: wf_state_write_obj)
qed

lemma wf_state_exec: "wf_state s \<Longrightarrow> wf_state (exec c s)"
  by (cases c)
    (simp_all add: wf_state_addGame wf_state_updateGame wf_state_deleteGame
      wf_state_clearGames wf_state_getGames)

lemma wf_state_foldl_exec: "wf_state s \<Longrightarrow> wf_state (foldl (\<lambda>s c. exec c s) s cs)"
  by (induction cs arbitrary: s) (simp_all add: wf_state_exec)

lemma wf_state_run: "wf_state (run cs s0)"
  unfolding run_def by (rule wf_state_foldl_exec) (rule wf_state_constructor)

lemma findIndex_records:
  "findIndex (\<lambda>r. id' (objs s r) = i) (arrs s (games s)) =
   findIndex (\<lambda>g. id' g = i) (records s)"
  by (simp add: records_def findIndex_map)

lemma records_updateGame_missing:
  assumes "\<forall>g\<in>set (records s). id' g \<noteq> i"
  shows "updateGame i u s = (Inl (Error ''Game session not found''), s)"
proof -
  from assms have "findIndex (\<lambda>g. id' g = i) (records s) = - 1"
    by (simp add: findIndex_none)
  then show ?thesis by (simp add: updateGame_missing findIndex_records)
qed

lemma records_updateGame_found:
  assumes wf: "wf_state s"
    and k: "k < length (records s)"
    and idk: "id' (records s ! k) = i"
    and first: "\<forall>j<k. id' (records s ! j) \<noteq> i"
  shows "fst (updateGame i u s) = Inr Undefined"
    and "records (snd (updateGame i u s)) = (records s)[k := assigned u (records s ! k)]"
proof -
  have len: "k < length (arrs s (games s))" using k by (simp add: records_def)
  have g: "records s ! k = objs s (arrs s (games s) ! k)"
    using len by (simp add: records_def)
  have "findIndex (\<lambda>g. id' g = i) (records s) = int k"
    using k idk first by (intro findIndex_first) simp_all
  then have found: "findIndex (\<lambda>r. id' (objs s r) = i) (arrs s (games s)) = int k"
    by (simp add: findIndex_records)
  have dist: "distinct (arrs s (games s))" using wf by (simp add: wf_state_def)
  have eq: "updateGame i u s =
            (Inr Undefined, write_obj (arrs s (games s) ! k) (assigned u (records s ! k)) s)"
    unfolding g by (rule updateGame_found [OF found])
  show "fst (updateGame i u s) = Inr Undefined" by (simp add: eq)
  show "records (snd (updateGame i u s)) = (records s)[k := assigned u (records s ! k)]"
    by (simp add: eq records_write_obj [OF dist len])
qed

subsection \<open>The gain/loss invariant along every run\<close>

lemma assigned_gainLoss:
  assumes "gainLoss g = cashOut g - buyIn g"
  shows "gainLoss (assigned u g) = cashOut (assigned u g) - buyIn (assigned u g)"
  using assms by (simp add: assigned_fields split: option.splits)

lemma inv_updateGame:
  assumes wf: "wf_state s"
    and inv: "\<forall>g\<in>set (records s). gainLoss g = cashOut g - buyIn g"
  shows "\<forall>g\<in>set (records (snd (updateGame i u s))). gainLoss g = cashOut g - buyIn g"
proof (cases "\<forall>g\<in>set (records s). id' g \<noteq> i")
  case True
  then show ?thesis using inv by (simp add: records_updateGame_missing)
next
  case False
  then have ne: "findIndex (\<lambda>g. id' g = i) (records s) \<noteq> - 1"
    by (simp add: findIndex_none)
  define k where "k = nat (findIndex (\<lambda>g. id' g = i) (records s))"
  from findIndex_found [OF ne] have k: "k < length (records s)" "id' (records s ! k) = i"
    "\<forall>j<k. id' (records s ! j) \<noteq> i" by (simp_all add: k_def)
  have new: "gainLoss (assigned u (records s ! k)) =
             cashOut (assigned u (records s ! k)) - buyIn (assigned u (records s ! k))"
    using inv k(1) by (intro assigned_gainLoss) simp
  have sub: "set ((records s)[k := assigned u (records s ! k)]) \<subseteq>
             insert (assigned u (records s ! k)) (set (records s))"
    by (rule set_update_subset_insert)
  show ?thesis
    unfolding records_updateGame_found(2) [OF wf k]
  proof
    fix g
    assume "g \<in> set ((records s)[k := assigned u (records s ! k)])"
    with sub have "g = assigned u (records s ! k) \<or> g \<in> set (records s)" by blast
    then show "gainLoss g = cashOut g - buyIn g"
    proof
      assume "g = assigned u (records s ! k)"
      then show ?thesis using new by (simp only:)
    next
      assume "g \<in> set (records s)"
      with inv show ?thesis by (rule bspec)
    qed
  qed
qed

lemma inv_exec:
  assumes wf: "wf_state s"
    and inv: "\<forall>g\<in>set (records s). gainLoss g = cashOut g - buyIn g"
  shows "\<forall>g\<in>set (records (exec c s)). gainLoss g = cashOut g - buyIn g"
proof (cases c)
  case (AddGame rnd gn bi co st)
  then show ?thesis using inv by (simp add: records_addGame [OF wf])
next
  case (UpdateGame i u)
  then show ?thesis using inv_updateGame [OF wf inv] by simp
next
  case (DeleteGame i)
  then show ?thesis using inv by (simp add: records_deleteGame)
next
  case ClearGames
  then show ?thesis by (simp add: records_clearGames)
next
  case GetGames
  then show ?thesis using inv by (simp add: records_getGames [OF wf])
qed

lemma inv_foldl_exec:
  assumes "wf_state s" and "\<forall>g\<in>set (records s). gainLoss g = cashOut g - buyIn g"
  shows "\<forall>g\<in>set (records (foldl (\<lambda>s c. exec c s) s cs)). gainLoss g = cashOut g - buyIn g"
  using assms
proof (induction cs arbitrary: s)
  case Nil
  then show ?case by simp
next
  case (Cons c cs)
  have "wf_state (exec c s)" using Cons.prems(1) by (rule wf_state_exec)
  moreover have "\<forall>g\<in>set (records (exec c s)). gainLoss g = cashOut g - buyIn g"
    using Cons.prems by (rule inv_exec)
  ultimately show ?case using Cons.IH by simp
qed

lemma inv_run: "\<forall>g\<in>set (records (run cs s0)). gainLoss g = cashOut g - buyIn g"
  unfolding run_def
  by (rule inv_foldl_exec) (simp_all add: wf_state_constructor records_constructor)

lemma totals_sum_list:
  "getTotalGainLoss s = sum_list (map gainLoss (records s))"
  "getTotalBuyIn s = sum_list (map buyIn (records s))"
  "getTotalCashOut s = sum_list (map cashOut (records s))"
  by (simp_all add: getTotalGainLoss_def getTotalBuyIn_def getTotalCashOut_def records_def
      foldl_add_sum_list comp_def)

lemma sum_list_gainLoss:
  "\<forall>g\<in>set gs. gainLoss g = cashOut g - buyIn g \<Longrightarrow>
   sum_list (map gainLoss gs) = sum_list (map cashOut gs) - sum_list (map buyIn gs)"
proof (induction gs)
  case Nil
  show ?case by simp
next
  case (Cons g gs)
  then have "gainLoss g = cashOut g - buyIn g"
    and "sum_list (map gainLoss gs) = sum_list (map cashOut gs) - sum_list (map buyIn gs)"
    by simp_all
  then show ?case by simp
qed

subsection \<open>Evaluating the methods on concrete stores\<close>

lemmas store_defs =
  run_def constructor_def new_arr_def new_obj_def addGame_def updateGame_def deleteGame_def
  clearGames_def getGames_def records_def generateId_def calculateGainLoss_def
  empty_store_def set_gameName_def set_buyIn_def set_cashOut_def set_stakes_def
  set_gainLoss_def Let_def

section \<open>The claims\<close>

text \<open>
  C1: after any sequence of method calls on a new tracker, so in particular right after
  an \<open>addGame\<close> and right after an \<open>updateGame\<close> that supplies \<open>buyIn\<close> or
  \<open>cashOut\<close>, every record of the ledger has \<open>gainLoss = cashOut - buyIn\<close>, computed
  from the \<open>buyIn\<close> and \<open>cashOut\<close> the record then holds.
\<close>

theorem gainLoss_invariant:
  "\<forall>g\<in>set (records (run cs s0)). gainLoss g = cashOut g - buyIn g"
  by (rule inv_run)

theorem gainLoss_invariant_witness:
  "records (run [AddGame ''0.i'' ''Friday Game'' 100 150 ''1/2'',
                 UpdateGame ''_i'' \<lparr>upd_gameName = None, upd_buyIn = Some 120,
                                     upd_cashOut = None, upd_stakes = None\<rparr>]
            empty_store) =
     [\<lparr>id' = ''_i'', gameName = ''Friday Game'', buyIn = 120, cashOut = 150,
       stakes = ''1/2'', gainLoss = 30\<rparr>] \<and>
   list_all (\<lambda>g. gainLoss g = cashOut g - buyIn g)
     (records (run [AddGame ''0.i'' ''Friday Game'' 100 150 ''1/2'',
                    UpdateGame ''_i'' \<lparr>upd_gameName = None, upd_buyIn = Some 120,
                                        upd_cashOut = None, upd_stakes = None\<rparr>]
               empty_store))"
proof -
  have "records (run [AddGame ''0.i'' ''Friday Game'' 100 150 ''1/2'',
                 UpdateGame ''_i'' \<lparr>upd_gameName = None, upd_buyIn = Some 120,
                                     upd_cashOut = None, upd_stakes = None\<rparr>]
            empty_store) =
     [\<lparr>id' = ''_i'', gameName = ''Friday Game'', buyIn = 120, cashOut = 150,
       stakes = ''1/2'', gainLoss = 30\<rparr>]"
    by (simp add: store_defs)
  moreover note gainLoss_invariant
    [of "[AddGame ''0.i'' ''Friday Game'' 100 150 ''1/2'',
          UpdateGame ''_i'' \<lparr>upd_gameName = None, upd_buyIn = Some 120,
                              upd_cashOut = None, upd_stakes = None\<rparr>]" empty_store]
  ultimately show ?thesis by (simp only: list_all_iff) 
qed

text \<open>
  C2: after any sequence of method calls on a new tracker, \<open>getTotalGainLoss()\<close> is
  \<open>getTotalCashOut() - getTotalBuyIn()\<close>, in exact rational arithmetic.
\<close>

theorem total_gainLoss_difference:
  "getTotalGainLoss (run cs s0) = getTotalCashOut (run cs s0) - getTotalBuyIn (run cs s0)"
  unfolding totals_sum_list by (rule sum_list_gainLoss) (rule inv_run)

theorem total_gainLoss_difference_witness:
  "getTotalBuyIn (run [AddGame ''0.i'' ''Friday Game'' 100 150 ''1/2'',
                       AddGame ''0.4fzyo82mvyr'' ''Saturday Game'' 200 180 ''2/5'']
                  empty_store) = 300 \<and>
   getTotalCashOut (run [AddGame ''0.i'' ''Friday Game'' 100 150 ''1/2'',
                         AddGame ''0.4fzyo82mvyr'' ''Saturday Game'' 200 180 ''2/5'']
                    empty_store) = 330 \<and>
   getTotalGainLoss (run [AddGame ''0.i'' ''Friday Game'' 100 150 ''1/2'',
                          AddGame ''0.4fzyo82mvyr'' ''Saturday Game'' 200 180 ''2/5'']
                     empty_store) = 30"
proof -
  have b: "getTotalBuyIn (run [AddGame ''0.i'' ''Friday Game'' 100 150 ''1/2'',
                       AddGame ''0.4fzyo82mvyr'' ''Saturday Game'' 200 180 ''2/5'']
                  empty_store) = 300"
    by (simp add: store_defs getTotalBuyIn_def)
  have c: "getTotalCashOut (run [AddGame ''0.i'' ''Friday Game'' 100 150 ''1/2'',
                         AddGame ''0.4fzyo82mvyr'' ''Saturday Game'' 200 180 ''2/5'']
                    empty_store) = 330"
    by (simp add: store_defs getTotalCashOut_def)
  show ?thesis
    using total_gainLoss_difference
      [of "[AddGame ''0.i'' ''Friday Game'' 100 150 ''1/2'',
            AddGame ''0.4fzyo82mvyr'' ''Saturday Game'' 200 180 ''2/5'']" empty_store]
    by (simp only: b c) simp
qed

text \<open>
  C3: when no record of the ledger has the given id, \<open>updateGame\<close> throws
  \<open>Error("Game session not found")\<close> whatever \<open>updatedData\<close> holds, and the whole
  store, so the ledger too, is what it was before the call.
\<close>

theorem updateGame_unknown_id:
  assumes "\<forall>g\<in>set (records s). id' g \<noteq> i"
  shows "updateGame i u s = (Inl (Error ''Game session not found''), s)"
  using assms by (rule records_updateGame_missing)

theorem updateGame_unknown_id_witness:
  "list_all (\<lambda>g. id' g \<noteq> ''_zz'')
     (records (run [AddGame ''0.i'' ''Friday Game'' 100 150 ''1/2''] empty_store)) \<and>
   updateGame ''_zz''
     \<lparr>upd_gameName = None, upd_buyIn = Some 120, upd_cashOut = None, upd_stakes = None\<rparr>
     (run [AddGame ''0.i'' ''Friday Game'' 100 150 ''1/2''] empty_store) =
   (Inl (Error ''Game session not found''),
    run [AddGame ''0.i'' ''Friday Game'' 100 150 ''1/2''] empty_store)"
proof -
  have h: "\<forall>g\<in>set (records (run [AddGame ''0.i'' ''Friday Game'' 100 150 ''1/2''] empty_store)).
             id' g \<noteq> ''_zz''"
    by (simp add: store_defs)
  show ?thesis
    using h updateGame_unknown_id [OF h] by (simp add: list_all_iff)
qed

text \<open>
  C4, as the claim states it, fails: \<open>addGame\<close> has no \<open>return\<close> statement, so the
  caller receives \<open>undefined\<close>, not the id of the new record.
\<close>

theorem addGame_returns_id_counterexample:
  "fst (addGame ''0.i'' ''Friday Game'' 100 150 ''1/2'' (run [] empty_store)) \<noteq>
   Str (id' (last (records
     (snd (addGame ''0.i'' ''Friday Game'' 100 150 ''1/2'' (run [] empty_store))))))"
  by (simp add: addGame_def new_obj_def)

text \<open>
  C4, amended: \<open>addGame\<close> never throws and returns \<open>undefined\<close>; it appends to the end
  of the ledger one record with the given \<open>gameName\<close>, \<open>buyIn\<close>, \<open>cashOut\<close> and
  \<open>stakes\<close>, with \<open>gainLoss = cashOut - buyIn\<close> and with the generated id, and the
  records that were there stay as they were.
\<close>

theorem addGame_appends:
  assumes "wf_state s"
  shows "fst (addGame rnd gn bi co st s) = Undefined \<and>
         records (snd (addGame rnd gn bi co st s)) =
           records s @ [\<lparr>id' = generateId rnd, gameName = gn, buyIn = bi, cashOut = co,
                          stakes = st, gainLoss = co - bi\<rparr>]"
proof -
  have "fst (addGame rnd gn bi co st s) = Undefined"
    by (simp add: addGame_def new_obj_def)
  then show ?thesis by (simp add: records_addGame [OF assms])
qed

theorem addGame_appends_witness:
  "wf_state (run [AddGame ''0.i'' ''Friday Game'' 100 150 ''1/2''] empty_store) \<and>
   fst (addGame ''0.4fzyo82mvyr'' ''Saturday Game'' 200 180 ''2/5''
     (run [AddGame ''0.i'' ''Friday Game'' 100 150 ''1/2''] empty_store)) = Undefined \<and>
   records (snd (addGame ''0.4fzyo82mvyr'' ''Saturday Game'' 200 180 ''2/5''
     (run [AddGame ''0.i'' ''Friday Game'' 100 150 ''1/2''] empty_store))) =
     [\<lparr>id' = ''_i'', gameName = ''Friday Game'', buyIn = 100, cashOut = 150,
       stakes = ''1/2'', gainLoss = 50\<rparr>,
      \<lparr>id' = ''_4fzyo82mv'', gameName = ''Saturday Game'', buyIn = 200, cashOut = 180,
       stakes = ''2/5'', gainLoss = - 20\<rparr>]"
proof -
  have wf: "wf_state (run [AddGame ''0.i'' ''Friday Game'' 100 150 ''1/2''] empty_store)"
    by (simp add: store_defs wf_state_def)
  have r: "records (run [AddGame ''0.i'' ''Friday Game'' 100 150 ''1/2''] empty_store) =
     [\<lparr>id' = ''_i'', gameName = ''Friday Game'', buyIn = 100, cashOut = 150,
       stakes = ''1/2'', gainLoss = 50\<rparr>]"
    by (simp add: store_defs)
  show ?thesis
    using wf addGame_appends [OF wf, of "''0.4fzyo82mvyr''" "''Saturday Game''" 200 180 "''2/5''"]
    by (simp add: r generateId_def)
qed

text \<open>
  C5: the ids of the ledger are not always distinct. \<open>addGame\<close> takes the id from the
  random text alone and never looks at the ids already in the ledger, so two calls in
  which \<open>Math.random()\<close> yields \<open>0.5\<close> (\<open>"0.i"\<close> in base 36) both store the id
  \<open>"_i"\<close>.
\<close>

theorem addGame_duplicate_ids:
  "map id' (records (run [AddGame ''0.i'' ''Friday Game'' 100 150 ''1/2'',
                          AddGame ''0.i'' ''Saturday Game'' 200 180 ''2/5''] empty_store)) =
     [''_i'', ''_i''] \<and>
   \<not> distinct (map id' (records (run [AddGame ''0.i'' ''Friday Game'' 100 150 ''1/2'',
                          AddGame ''0.i'' ''Saturday Game'' 200 180 ''2/5''] empty_store)))"
  by (simp add: store_defs)

text \<open>
  C6, as the claim states it, fails: the array that \<open>getGames\<close> returns holds the
  ledger's own session objects, so an assignment to a field of one of them
  (\<open>tracker.getGames()[0].buyIn = 0\<close>) changes the record in the ledger.
\<close>

theorem getGames_snapshot_counterexample:
  "records
     (set_buyIn
        (arrs (snd (getGames (run [AddGame ''0.i'' ''Friday Game'' 100 150 ''1/2''] empty_store)))
           (fst (getGames (run [AddGame ''0.i'' ''Friday Game'' 100 150 ''1/2''] empty_store))) ! 0)
        0
        (snd (getGames (run [AddGame ''0.i'' ''Friday Game'' 100 150 ''1/2''] empty_store)))) \<noteq>
   records (snd (getGames (run [AddGame ''0.i'' ''Friday Game'' 100 150 ''1/2''] empty_store)))"
  by (simp add: store_defs)

text \<open>
  C6, amended: \<open>getGames\<close> returns a shallow copy. The result is a new array, not the
  ledger's own, that holds the ledger's session objects in insertion order; the ledger
  shows the same records after the call. Whatever the caller then stores in the returned
  array, the ledger shows the same records; an assignment to the session object at
  position \<open>k\<close> of the returned array changes the record at position \<open>k\<close> of the
  ledger and no other.
\<close>

theorem getGames_shallow_copy:
  assumes "wf_state s" and "getGames s = (a, s')"
  shows "a \<noteq> games s' \<and> games s' = games s \<and>
    arrs s' a = arrs s (games s) \<and>
    map (objs s') (arrs s' a) = records s \<and>
    records s' = records s \<and>
    (\<forall>xs. records (write_arr a xs s') = records s) \<and>
    (\<forall>k<length (records s). \<forall>g.
        records (write_obj (arrs s' a ! k) g s') = (records s)[k := g])"
proof -
  from assms(2) have a: "a = narr s"
    and s': "s' = s\<lparr>arrs := (arrs s)(narr s := arrs s (games s)), narr := Suc (narr s)\<rparr>"
    by (auto simp: getGames_def new_arr_def)
  from assms(1) have ne: "games s \<noteq> narr s" and dist: "distinct (arrs s (games s))"
    by (simp_all add: wf_state_def)
  have "\<forall>k<length (records s). \<forall>g.
          records (write_obj (arrs s' a ! k) g s') = (records s)[k := g]"
    using ne dist by (simp add: a s' records_def write_obj_def map_fun_upd_nth)
  moreover have "\<forall>xs. records (write_arr a xs s') = records s"
    using ne by (simp add: a s' records_def write_arr_def)
  ultimately show ?thesis using ne by (simp add: a s' records_def)
qed

theorem getGames_shallow_copy_witness:
  "wf_state (run [AddGame ''0.i'' ''Friday Game'' 100 150 ''1/2''] empty_store) \<and>
   getGames (run [AddGame ''0.i'' ''Friday Game'' 100 150 ''1/2''] empty_store) =
     (1, snd (getGames (run [AddGame ''0.i'' ''Friday Game'' 100 150 ''1/2''] empty_store))) \<and>
   games (snd (getGames (run [AddGame ''0.i'' ''Friday Game'' 100 150 ''1/2''] empty_store))) = 0 \<and>
   records (write_arr 1 []
     (snd (getGames (run [AddGame ''0.i'' ''Friday Game'' 100 150 ''1/2''] empty_store)))) =
     [\<lparr>id' = ''_i'', gameName = ''Friday Game'', buyIn = 100, cashOut = 150,
       stakes = ''1/2'', gainLoss = 50\<rparr>] \<and>
   records (write_obj
     (arrs (snd (getGames (run [AddGame ''0.i'' ''Friday Game'' 100 150 ''1/2''] empty_store)))
        1 ! 0)
     blank
     (snd (getGames (run [AddGame ''0.i'' ''Friday Game'' 100 150 ''1/2''] empty_store)))) =
     [blank]"
proof -
  define S where "S = run [AddGame ''0.i'' ''Friday Game'' 100 150 ''1/2''] empty_store"
  have wf: "wf_state S" unfolding S_def by (rule wf_state_run)
  have g: "getGames S = (1, snd (getGames S))"
    unfolding S_def by (simp add: store_defs)
  have r: "records S =
     [\<lparr>id' = ''_i'', gameName = ''Friday Game'', buyIn = 100, cashOut = 150,
       stakes = ''1/2'', gainLoss = 50\<rparr>]"
    unfolding S_def by (simp add: store_defs)
  note copy = getGames_shallow_copy [OF wf g]
  have gm: "games S = 0" unfolding S_def by (simp add: store_defs)
  have "games (snd (getGames S)) = 0" using copy gm by simp
  moreover have "records (write_arr 1 [] (snd (getGames S))) = records S"
    using copy by blast
  moreover have "\<forall>k<length (records S). \<forall>g.
      records (write_obj (arrs (snd (getGames S)) 1 ! k) g (snd (getGames S))) =
      (records S)[k := g]"
    using copy by blast
  then have "records (write_obj (arrs (snd (getGames S)) 1 ! 0) blank (snd (getGames S))) =
             (records S)[0 := blank]"
    by (simp add: r)
  ultimately show ?thesis
    using wf g unfolding S_def by (simp add: r [unfolded S_def])
qed

text \<open>
  C7: \<open>deleteGame(id)\<close> never throws; it leaves in the ledger exactly the records whose
  id differs from the given one, in the order they had (also when the deleted record was
  in the middle), and when no record has that id the ledger shows the same records as
  before.
\<close>

theorem deleteGame_by_id:
  "fst (deleteGame i s) = Undefined \<and>
   records (snd (deleteGame i s)) = filter (\<lambda>g. id' g \<noteq> i) (records s) \<and>
   subseq (records (snd (deleteGame i s))) (records s) \<and>
   ((\<forall>g\<in>set (records s). id' g \<noteq> i) \<longrightarrow> records (snd (deleteGame i s)) = records s)"
proof -
  have "fst (deleteGame i s) = Undefined"
    by (simp add: deleteGame_def new_arr_def)
  moreover have "(\<forall>g\<in>set (records s). id' g \<noteq> i) \<longrightarrow>
                 filter (\<lambda>g. id' g \<noteq> i) (records s) = records s"
    by (simp add: filter_id_conv)
  ultimately show ?thesis by (simp add: records_deleteGame)
qed

theorem deleteGame_by_id_witness:
  "records (snd (deleteGame ''_4fzyo82mv''
     (run [AddGame ''0.i'' ''Friday Game'' 100 150 ''1/2'',
           AddGame ''0.4fzyo82mvyr'' ''Saturday Game'' 200 180 ''2/5'',
           AddGame ''0.9'' ''Sunday Game'' 50 75 ''1/3''] empty_store))) =
     [\<lparr>id' = ''_i'', gameName = ''Friday Game'', buyIn = 100, cashOut = 150,
       stakes = ''1/2'', gainLoss = 50\<rparr>,
      \<lparr>id' = ''_9'', gameName = ''Sunday Game'', buyIn = 50, cashOut = 75,
       stakes = ''1/3'', gainLoss = 25\<rparr>] \<and>
   list_all (\<lambda>g. id' g \<noteq> ''_zz'')
     (records (run [AddGame ''0.i'' ''Friday Game'' 100 150 ''1/2''] empty_store)) \<and>
   records (snd (deleteGame ''_zz''
     (run [AddGame ''0.i'' ''Friday Game'' 100 150 ''1/2''] empty_store))) =
   records (run [AddGame ''0.i'' ''Friday Game'' 100 150 ''1/2''] empty_store)"
proof -
  have r: "records (run [AddGame ''0.i'' ''Friday Game'' 100 150 ''1/2'',
           AddGame ''0.4fzyo82mvyr'' ''Saturday Game'' 200 180 ''2/5'',
           AddGame ''0.9'' ''Sunday Game'' 50 75 ''1/3''] empty_store) =
     [\<lparr>id' = ''_i'', gameName = ''Friday Game'', buyIn = 100, cashOut = 150,
       stakes = ''1/2'', gainLoss = 50\<rparr>,
      \<lparr>id' = ''_4fzyo82mv'', gameName = ''Saturday Game'', buyIn = 200, cashOut = 180,
       stakes = ''2/5'', gainLoss = - 20\<rparr>,
      \<lparr>id' = ''_9'', gameName = ''Sunday Game'', buyIn = 50, cashOut = 75,
       stakes = ''1/3'', gainLoss = 25\<rparr>]"
    by (simp add: store_defs)
  have h: "\<forall>g\<in>set (records (run [AddGame ''0.i'' ''Friday Game'' 100 150 ''1/2'']
             empty_store)). id' g \<noteq> ''_zz''"
    by (simp add: store_defs)
  show ?thesis
    using h
      deleteGame_by_id [of "''_4fzyo82mv''"
        "run [AddGame ''0.i'' ''Friday Game'' 100 150 ''1/2'',
              AddGame ''0.4fzyo82mvyr'' ''Saturday Game'' 200 180 ''2/5'',
              AddGame ''0.9'' ''Sunday Game'' 50 75 ''1/3''] empty_store"]
      deleteGame_by_id [of "''_zz''"
        "run [AddGame ''0.i'' ''Friday Game'' 100 150 ''1/2''] empty_store"]
    by (simp add: r list_all_iff)
qed

text \<open>
  C8: the four aggregate queries are total functions of the store: the three money totals
  are the sums of \<open>gainLoss\<close>, \<open>buyIn\<close> and \<open>cashOut\<close> over the records of the
  ledger, \<open>getTotalGamesPlayed\<close> is the number of records, and all four are \<open>0\<close> when
  the ledger is empty.
\<close>

theorem aggregates_are_sums:
  "getTotalGainLoss s = sum_list (map gainLoss (records s)) \<and>
   getTotalBuyIn s = sum_list (map buyIn (records s)) \<and>
   getTotalCashOut s = sum_list (map cashOut (records s)) \<and>
   getTotalGamesPlayed s = length (records s) \<and>
   (records s = [] \<longrightarrow>
      getTotalGainLoss s = 0 \<and> getTotalBuyIn s = 0 \<and> getTotalCashOut s = 0 \<and>
      getTotalGamesPlayed s = 0)"
proof -
  have n: "getTotalGamesPlayed s = length (records s)"
    by (simp add: getTotalGamesPlayed_def records_def)
  show ?thesis by (simp add: totals_sum_list n)
qed

theorem aggregates_are_sums_witness:
  "records (run [AddGame ''0.i'' ''Friday Game'' 100 150 ''1/2'', ClearGames] empty_store) = [] \<and>
   getTotalGainLoss
     (run [AddGame ''0.i'' ''Friday Game'' 100 150 ''1/2'', ClearGames] empty_store) = 0 \<and>
   getTotalBuyIn
     (run [AddGame ''0.i'' ''Friday Game'' 100 150 ''1/2'', ClearGames] empty_store) = 0 \<and>
   getTotalCashOut
     (run [AddGame ''0.i'' ''Friday Game'' 100 150 ''1/2'', ClearGames] empty_store) = 0 \<and>
   getTotalGamesPlayed
     (run [AddGame ''0.i'' ''Friday Game'' 100 150 ''1/2'', ClearGames] empty_store) = 0"
proof -
  have h: "records (run [AddGame ''0.i'' ''Friday Game'' 100 150 ''1/2'', ClearGames]
             empty_store) = []"
    by (simp add: store_defs)
  show ?thesis
    using h aggregates_are_sums
      [of "run [AddGame ''0.i'' ''Friday Game'' 100 150 ''1/2'', ClearGames] empty_store"]
    by (simp only:) simp
qed

text \<open>
  C9: let the first record of the ledger with the given id be at position \<open>k\<close>. Then
  \<open>updateGame\<close> returns normally and the ledger keeps its length; every record at
  another position is what it was; the record at \<open>k\<close> keeps its id, takes each of
  \<open>gameName\<close>, \<open>buyIn\<close>, \<open>cashOut\<close>, \<open>stakes\<close> from \<open>updatedData\<close> where
  supplied and keeps it otherwise, and its \<open>gainLoss\<close> is kept when neither \<open>buyIn\<close>
  nor \<open>cashOut\<close> is supplied and is the resulting \<open>cashOut - buyIn\<close> otherwise.
\<close>

theorem updateGame_frame:
  assumes "wf_state s"
    and "k < length (records s)"
    and "id' (records s ! k) = i"
    and "\<forall>j<k. id' (records s ! j) \<noteq> i"
    and "updateGame i u s = (res, s')"
  shows "res = Inr Undefined \<and>
    length (records s') = length (records s) \<and>
    (\<forall>j<length (records s). j \<noteq> k \<longrightarrow> records s' ! j = records s ! j) \<and>
    id' (records s' ! k) = id' (records s ! k) \<and>
    gameName (records s' ! k) =
      (case upd_gameName u of None \<Rightarrow> gameName (records s ! k) | Some v \<Rightarrow> v) \<and>
    buyIn (records s' ! k) =
      (case upd_buyIn u of None \<Rightarrow> buyIn (records s ! k) | Some v \<Rightarrow> v) \<and>
    cashOut (records s' ! k) =
      (case upd_cashOut u of None \<Rightarrow> cashOut (records s ! k) | Some v \<Rightarrow> v) \<and>
    stakes (records s' ! k) =
      (case upd_stakes u of None \<Rightarrow> stakes (records s ! k) | Some v \<Rightarrow> v) \<and>
    gainLoss (records s' ! k) =
      (if upd_buyIn u = None \<and> upd_cashOut u = None then gainLoss (records s ! k)
       else cashOut (records s' ! k) - buyIn (records s' ! k))"
proof -
  note found = records_updateGame_found [OF assms(1-4), of u]
  have res: "res = Inr Undefined" using found(1) assms(5) by simp
  have recs: "records s' = (records s)[k := assigned u (records s ! k)]"
    using found(2) assms(5) by simp
  have at_k: "records s' ! k = assigned u (records s ! k)"
    using assms(2) by (simp add: recs)
  have others: "\<forall>j<length (records s). j \<noteq> k \<longrightarrow> records s' ! j = records s ! j"
    by (simp add: recs)
  have len: "length (records s') = length (records s)" by (simp add: recs)
  show ?thesis
    unfolding at_k using res len others by (simp add: assigned_fields)
qed

theorem updateGame_frame_witness:
  "wf_state (run [AddGame ''0.i'' ''Friday Game'' 100 150 ''1/2'',
                  AddGame ''0.4fzyo82mvyr'' ''Saturday Game'' 200 180 ''2/5''] empty_store) \<and>
   id' (records (run [AddGame ''0.i'' ''Friday Game'' 100 150 ''1/2'',
                      AddGame ''0.4fzyo82mvyr'' ''Saturday Game'' 200 180 ''2/5'']
                 empty_store) ! 1) = ''_4fzyo82mv'' \<and>
   id' (records (run [AddGame ''0.i'' ''Friday Game'' 100 150 ''1/2'',
                      AddGame ''0.4fzyo82mvyr'' ''Saturday Game'' 200 180 ''2/5'']
                 empty_store) ! 0) \<noteq> ''_4fzyo82mv'' \<and>
   fst (updateGame ''_4fzyo82mv''
     \<lparr>upd_gameName = Some ''Late Game'', upd_buyIn = None, upd_cashOut = Some 260,
       upd_stakes = None\<rparr>
     (run [AddGame ''0.i'' ''Friday Game'' 100 150 ''1/2'',
           AddGame ''0.4fzyo82mvyr'' ''Saturday Game'' 200 180 ''2/5''] empty_store)) =
     Inr Undefined \<and>
   records (snd (updateGame ''_4fzyo82mv''
     \<lparr>upd_gameName = Some ''Late Game'', upd_buyIn = None, upd_cashOut = Some 260,
       upd_stakes = None\<rparr>
     (run [AddGame ''0.i'' ''Friday Game'' 100 150 ''1/2'',
           AddGame ''0.4fzyo82mvyr'' ''Saturday Game'' 200 180 ''2/5''] empty_store))) ! 0 =
     \<lparr>id' = ''_i'', gameName = ''Friday Game'', buyIn = 100, cashOut = 150,
       stakes = ''1/2'', gainLoss = 50\<rparr> \<and>
   records (snd (updateGame ''_4fzyo82mv''
     \<lparr>upd_gameName = Some ''Late Game'', upd_buyIn = None, upd_cashOut = Some 260,
       upd_stakes = None\<rparr>
     (run [AddGame ''0.i'' ''Friday Game'' 100 150 ''1/2'',
           AddGame ''0.4fzyo82mvyr'' ''Saturday Game'' 200 180 ''2/5''] empty_store))) ! 1 =
     \<lparr>id' = ''_4fzyo82mv'', gameName = ''Late Game'', buyIn = 200, cashOut = 260,
       stakes = ''2/5'', gainLoss = 60\<rparr>"
proof -
  define S where "S = run [AddGame ''0.i'' ''Friday Game'' 100 150 ''1/2'',
    AddGame ''0.4fzyo82mvyr'' ''Saturday Game'' 200 180 ''2/5''] empty_store"
  define U where "U = \<lparr>upd_gameName = Some ''Late Game'', upd_buyIn = None,
    upd_cashOut = Some 260, upd_stakes = None\<rparr>"
  define S' where "S' = snd (updateGame ''_4fzyo82mv'' U S)"
  have r: "records S =
     [\<lparr>id' = ''_i'', gameName = ''Friday Game'', buyIn = 100, cashOut = 150,
       stakes = ''1/2'', gainLoss = 50\<rparr>,
      \<lparr>id' = ''_4fzyo82mv'', gameName = ''Saturday Game'', buyIn = 200, cashOut = 180,
       stakes = ''2/5'', gainLoss = - 20\<rparr>]"
    unfolding S_def by (simp add: store_defs)
  have wf: "wf_state S" unfolding S_def by (rule wf_state_run)
  have k: "1 < length (records S)" by (simp add: r)
  have idk: "id' (records S ! 1) = ''_4fzyo82mv''" by (simp add: r)
  have id0: "id' (records S ! 0) \<noteq> ''_4fzyo82mv''" by (simp add: r)
  have first: "\<forall>j<1. id' (records S ! j) \<noteq> ''_4fzyo82mv''" using id0 by simp
  have pair: "updateGame ''_4fzyo82mv'' U S = (fst (updateGame ''_4fzyo82mv'' U S), S')"
    by (simp add: S'_def)
  note frame = updateGame_frame [OF wf k idk first pair]
  have res: "fst (updateGame ''_4fzyo82mv'' U S) = Inr Undefined"
    using frame by (rule conjunct1)
  have "0 < length (records S) \<and> (0::nat) \<noteq> 1" by (simp add: r)
  with frame have zero: "records S' ! 0 = records S ! 0" by blast
  have "id' (records S' ! 1) = ''_4fzyo82mv'' \<and> gameName (records S' ! 1) = ''Late Game'' \<and>
        buyIn (records S' ! 1) = 200 \<and> cashOut (records S' ! 1) = 260 \<and>
        stakes (records S' ! 1) = ''2/5'' \<and> gainLoss (records S' ! 1) = 60"
    using frame by (simp add: r U_def)
  then have one: "records S' ! 1 =
     \<lparr>id' = ''_4fzyo82mv'', gameName = ''Late Game'', buyIn = 200, cashOut = 260,
       stakes = ''2/5'', gainLoss = 60\<rparr>"
    by (cases "records S' ! 1") simp
  show ?thesis
    using wf idk id0 res zero one unfolding S'_def S_def U_def by (simp add: r [unfolded S_def])
qed

text \<open>
  C10: after \<open>deleteGame(id)\<close> no record with that id is left, however many records
  carried it; the records that stay are the ones with another id, in their order, and no
  session object is written.
\<close>

theorem deleteGame_every_match:
  "(\<forall>g\<in>set (records (snd (deleteGame i s))). id' g \<noteq> i) \<and>
   filter (\<lambda>g. id' g \<noteq> i) (records s) = records (snd (deleteGame i s)) \<and>
   objs (snd (deleteGame i s)) = objs s"
proof -
  have "objs (snd (deleteGame i s)) = objs s"
    by (simp add: deleteGame_def new_arr_def)
  then show ?thesis by (simp add: records_deleteGame)
qed

theorem deleteGame_every_match_witness:
  "map id' (records
     (run [AddGame ''0.i'' ''Friday Game'' 100 150 ''1/2'',
           AddGame ''0.4fzyo82mvyr'' ''Saturday Game'' 200 180 ''2/5'',
           AddGame ''0.i'' ''Sunday Game'' 50 75 ''1/3''] empty_store)) =
     [''_i'', ''_4fzyo82mv'', ''_i''] \<and>
   records (snd (deleteGame ''_i''
     (run [AddGame ''0.i'' ''Friday Game'' 100 150 ''1/2'',
           AddGame ''0.4fzyo82mvyr'' ''Saturday Game'' 200 180 ''2/5'',
           AddGame ''0.i'' ''Sunday Game'' 50 75 ''1/3''] empty_store))) =
     [\<lparr>id' = ''_4fzyo82mv'', gameName = ''Saturday Game'', buyIn = 200, cashOut = 180,
       stakes = ''2/5'', gainLoss = - 20\<rparr>] \<and>
   list_all (\<lambda>g. id' g \<noteq> ''_i'')
     (records (snd (deleteGame ''_i''
       (run [AddGame ''0.i'' ''Friday Game'' 100 150 ''1/2'',
             AddGame ''0.4fzyo82mvyr'' ''Saturday Game'' 200 180 ''2/5'',
             AddGame ''0.i'' ''Sunday Game'' 50 75 ''1/3''] empty_store))))"
proof -
  have r: "records (run [AddGame ''0.i'' ''Friday Game'' 100 150 ''1/2'',
           AddGame ''0.4fzyo82mvyr'' ''Saturday Game'' 200 180 ''2/5'',
           AddGame ''0.i'' ''Sunday Game'' 50 75 ''1/3''] empty_store) =
     [\<lparr>id' = ''_i'', gameName = ''Friday Game'', buyIn = 100, cashOut = 150,
       stakes = ''1/2'', gainLoss = 50\<rparr>,
      \<lparr>id' = ''_4fzyo82mv'', gameName = ''Saturday Game'', buyIn = 200, cashOut = 180,
       stakes = ''2/5'', gainLoss = - 20\<rparr>,
      \<lparr>id' = ''_i'', gameName = ''Sunday Game'', buyIn = 50, cashOut = 75,
       stakes = ''1/3'', gainLoss = 25\<rparr>]"
    by (simp add: store_defs)
  have "filter (\<lambda>g. id' g \<noteq> ''_i'') (records (run [AddGame ''0.i'' ''Friday Game'' 100 150 ''1/2'',
           AddGame ''0.4fzyo82mvyr'' ''Saturday Game'' 200 180 ''2/5'',
           AddGame ''0.i'' ''Sunday Game'' 50 75 ''1/3''] empty_store)) =
     [\<lparr>id' = ''_4fzyo82mv'', gameName = ''Saturday Game'', buyIn = 200, cashOut = 180,
       stakes = ''2/5'', gainLoss = - 20\<rparr>]"
    by (simp add: r)
  with deleteGame_every_match [of "''_i''"
        "run [AddGame ''0.i'' ''Friday Game'' 100 150 ''1/2'',
              AddGame ''0.4fzyo82mvyr'' ''Saturday Game'' 200 180 ''2/5'',
              AddGame ''0.i'' ''Sunday Game'' 50 75 ''1/3''] empty_store"]
  show ?thesis by (simp add: r list_all_iff)
qed

end
